theory Spec2Isabelle
  imports Main "HOL-Library.Word" "HOL-Library.Signed_Division"
begin

unbundle bit_operations_syntax

section \<open>Machine integers and points\<close>

text \<open>
  The C++ type \<^verbatim>\<open>int\<close> of the source is modelled as a 32-bit word. Addition,
  subtraction and multiplication wrap around modulo \<open>2 ^ 32\<close> (two's complement, as
  the compiled code behaves on the supported targets); comparisons of \<^verbatim>\<open>int\<close>
  values read the word as signed (\<open><s\<close>); division truncates towards zero. The
  language leaves signed overflow undefined: where a result below depends on a wrapped
  value, the text of the theorem says so.
\<close>

type_synonym int32 = "32 word"
type_synonym STATUS_FLAGS = "32 word"

definition INT_MAX :: int32 where
  "INT_MAX = 2147483647"

definition c_div :: "int32 \<Rightarrow> int32 \<Rightarrow> int32" where
  \<comment> \<open>\<^verbatim>\<open>a / b\<close> on \<^verbatim>\<open>int\<close>: the quotient is truncated towards zero.\<close>
  "c_div a b = word_of_int (sint a sdiv sint b)"

definition std_min :: "int32 \<Rightarrow> int32 \<Rightarrow> int32" where
  "std_min a b = (if b <s a then b else a)"

definition std_max :: "int32 \<Rightarrow> int32 \<Rightarrow> int32" where
  "std_max a b = (if a <s b then b else a)"

datatype wxPoint = wxPoint (pt_x: int32) (pt_y: int32)

definition wx_plus :: "wxPoint \<Rightarrow> wxPoint \<Rightarrow> wxPoint" where
  "wx_plus a b = wxPoint (pt_x a + pt_x b) (pt_y a + pt_y b)"

definition wx_minus :: "wxPoint \<Rightarrow> wxPoint \<Rightarrow> wxPoint" where
  "wx_minus a b = wxPoint (pt_x a - pt_x b) (pt_y a - pt_y b)"

text \<open>
  An access to a vector element outside the vector is undefined behaviour in the source;
  the model makes it a value, so that no theorem silently reads an unspecified element.
  The source itself has no error type and performs no check: \<open>OutOfRange\<close> marks the
  places where it would read or write outside \<^verbatim>\<open>m_PolyPoints\<close>.
\<close>

datatype error = OutOfRange

section \<open>Collaborators outside the file\<close>

text \<open>
  The file uses constants, inline helpers and geometry routines that are declared in
  headers outside it. They are parameters of the model: every theorem holds for any
  choice of them. \<open>DistanceLinePoint\<close> stands for the value after the source's cast
  \<^verbatim>\<open>(int) DistanceLinePoint(a, b, p)\<close>; \<open>LIB_ITEM_BeginEdit\<close> and
  \<open>LIB_ITEM_EndEdit\<close> are the base-class calls, which can only touch the base
  class's state, of which the model keeps \<^verbatim>\<open>m_Flags\<close>.
\<close>

record host =
  IS_NEW :: STATUS_FLAGS
  IS_RESIZED :: STATUS_FLAGS
  IS_MOVED :: STATUS_FLAGS
  STRUCT_DELETED :: STATUS_FLAGS
  SKIP_STRUCT :: STATUS_FLAGS
  IsNew :: "STATUS_FLAGS \<Rightarrow> bool"
  IsResized :: "STATUS_FLAGS \<Rightarrow> bool"
  IsMoving :: "STATUS_FLAGS \<Rightarrow> bool"
  LIB_ITEM_BeginEdit :: "STATUS_FLAGS \<Rightarrow> STATUS_FLAGS \<Rightarrow> wxPoint \<Rightarrow> STATUS_FLAGS"
  LIB_ITEM_EndEdit :: "STATUS_FLAGS \<Rightarrow> wxPoint \<Rightarrow> STATUS_FLAGS"
  GetDefaultLineThickness :: int32
  MINIMUM_SELECTION_DISTANCE :: int32
  DistanceLinePoint :: "wxPoint \<Rightarrow> wxPoint \<Rightarrow> wxPoint \<Rightarrow> int32"
  TestSegmentHit :: "wxPoint \<Rightarrow> wxPoint \<Rightarrow> wxPoint \<Rightarrow> int32 \<Rightarrow> bool"
  TransformCoordinate :: "wxPoint \<Rightarrow> wxPoint"

text \<open>
  The rectangle class \<^verbatim>\<open>EDA_RECT\<close> is abstract: \<open>'r\<close> is the type of its values,
  and the record holds the member functions the file calls.
\<close>

record 'r EDA_RECT_ops =
  EDA_RECT_new :: 'r
  SetOrigin :: "'r \<Rightarrow> int32 \<Rightarrow> int32 \<Rightarrow> 'r"
  SetEnd :: "'r \<Rightarrow> int32 \<Rightarrow> int32 \<Rightarrow> 'r"
  Inflate :: "'r \<Rightarrow> int32 \<Rightarrow> 'r"
  RevertYAxis :: "'r \<Rightarrow> 'r"
  Contains_rect :: "'r \<Rightarrow> 'r \<Rightarrow> bool"
  Contains_point :: "'r \<Rightarrow> wxPoint \<Rightarrow> bool"
  Intersects_rect :: "'r \<Rightarrow> 'r \<Rightarrow> bool"
  Intersects_segment :: "'r \<Rightarrow> wxPoint \<Rightarrow> wxPoint \<Rightarrow> bool"

section \<open>The shape\<close>

text \<open>
  Counters that only run over the vector and index it (\<^verbatim>\<open>i\<close>, \<^verbatim>\<open>ii\<close>,
  \<^verbatim>\<open>count\<close>, \<^verbatim>\<open>closestLineStart\<close>) are natural numbers; \<^verbatim>\<open>m_ModifyIndex\<close>,
  which the source negates and stores, is a 32-bit \<^verbatim>\<open>int\<close>.
\<close>

record LIB_POLYLINE =
  m_Flags :: STATUS_FLAGS
  m_Width :: int32
  m_PolyPoints :: "wxPoint list"
  m_ModifyIndex :: int32
  m_initialPos :: wxPoint
  m_initialCursorPos :: wxPoint

subsection \<open>Mirroring\<close>

definition mirror_x :: "wxPoint \<Rightarrow> wxPoint \<Rightarrow> wxPoint" where
  \<comment> \<open>The loop body of \<^verbatim>\<open>MirrorHorizontal\<close>: \<^verbatim>\<open>x -= c.x; x *= -1; x += c.x\<close>.\<close>
  "mirror_x aCenter pt = wxPoint ((pt_x pt - pt_x aCenter) * (- 1) + pt_x aCenter) (pt_y pt)"

definition MirrorHorizontal :: "wxPoint \<Rightarrow> wxPoint list \<Rightarrow> wxPoint list" where
  "MirrorHorizontal aCenter pts = map (mirror_x aCenter) pts"

subsection \<open>Comparison\<close>

fun compare_points :: "wxPoint list \<Rightarrow> wxPoint list \<Rightarrow> int32" where
  "compare_points (p # ps) (q # qs) =
     (if pt_x p \<noteq> pt_x q then pt_x p - pt_x q
      else if pt_y p \<noteq> pt_y q then pt_y p - pt_y q
      else compare_points ps qs)"
| "compare_points _ _ = 0"

definition compare :: "wxPoint list \<Rightarrow> wxPoint list \<Rightarrow> int32" where
  \<comment> \<open>The difference of the two \<^verbatim>\<open>size_t\<close> counts is returned as \<^verbatim>\<open>int\<close>: its low 32 bits.\<close>
  "compare a b =
     (if length a \<noteq> length b then of_nat (length a) - of_nat (length b)
      else compare_points a b)"

subsection \<open>Inserting a corner\<close>

definition AddCorner_step ::
  "host \<Rightarrow> wxPoint list \<Rightarrow> wxPoint \<Rightarrow> nat \<Rightarrow> int32 \<times> nat \<Rightarrow> int32 \<times> nat" where
  "AddCorner_step h pts aPosition i st =
     (let distance = DistanceLinePoint h (pts ! i) (pts ! (i + 1)) aPosition
      in if distance <s fst st then (distance, i) else st)"

definition AddCorner :: "host \<Rightarrow> wxPoint list \<Rightarrow> wxPoint \<Rightarrow> error + wxPoint list" where
  \<comment> \<open>On an empty vector \<^verbatim>\<open>size() - 1\<close> wraps around and the loop reads outside it.\<close>
  "AddCorner h pts aPosition =
     (if pts = [] then Inl OutOfRange
      else
        let closestLineStart =
              snd (fold (AddCorner_step h pts aPosition) [0..<length pts - 1] (INT_MAX, 0))
        in Inr (take closestLineStart pts @ aPosition # drop closestLineStart pts))"

subsection \<open>Pen size and bounding box\<close>

definition GetPenSize :: "host \<Rightarrow> LIB_POLYLINE \<Rightarrow> int32" where
  "GetPenSize h s =
     (if 0 <s m_Width s then m_Width s
      else if m_Width s = 0 then GetDefaultLineThickness h
      else - 1)"

definition GetWidth :: "LIB_POLYLINE \<Rightarrow> int32" where
  \<comment> \<open>Modelled from the spec: the header's accessor of the stroke width.\<close>
  "GetWidth s = m_Width s"

definition GetCornerCount :: "LIB_POLYLINE \<Rightarrow> nat" where
  \<comment> \<open>Modelled from the spec: the header's accessor of the number of vertices.\<close>
  "GetCornerCount s = length (m_PolyPoints s)"

definition bbox_step ::
  "wxPoint list \<Rightarrow> nat \<Rightarrow> int32 \<times> int32 \<times> int32 \<times> int32 \<Rightarrow> int32 \<times> int32 \<times> int32 \<times> int32" where
  "bbox_step pts ii st =
     (case st of (xmin, xmax, ymin, ymax) \<Rightarrow>
        (std_min xmin (pt_x (pts ! ii)), std_max xmax (pt_x (pts ! ii)),
         std_min ymin (pt_y (pts ! ii)), std_max ymax (pt_y (pts ! ii))))"

definition GetBoundingBox :: "host \<Rightarrow> 'r EDA_RECT_ops \<Rightarrow> LIB_POLYLINE \<Rightarrow> error + 'r" where
  \<comment> \<open>\<^verbatim>\<open>m_PolyPoints[0]\<close> is read without a check.\<close>
  "GetBoundingBox h R s =
     (case m_PolyPoints s of
        [] \<Rightarrow> Inl OutOfRange
      | p0 # _ \<Rightarrow>
          (case fold (bbox_step (m_PolyPoints s)) [1..<length (m_PolyPoints s)]
                  (pt_x p0, pt_x p0, pt_y p0, pt_y p0) of
             (xmin, xmax, ymin, ymax) \<Rightarrow>
               Inr (RevertYAxis R
                     (Inflate R (SetEnd R (SetOrigin R (EDA_RECT_new R) xmin ymin) xmax ymax)
                        (c_div (GetPenSize h s + 1) 2)))))"

subsection \<open>Hit testing\<close>

function HitTest_point_loop :: "host \<Rightarrow> LIB_POLYLINE \<Rightarrow> wxPoint \<Rightarrow> int32 \<Rightarrow> nat \<Rightarrow> bool" where
  "HitTest_point_loop h s aPosition mindist ii =
     (if ii < GetCornerCount s then
        (let start = TransformCoordinate h (m_PolyPoints s ! (ii - 1));
             end = TransformCoordinate h (m_PolyPoints s ! ii)
         in if TestSegmentHit h aPosition start end mindist then True
            else HitTest_point_loop h s aPosition mindist (ii + 1))
      else False)"
  by pat_completeness auto
termination
  by (relation "measure (\<lambda>(h, s, aPosition, mindist, ii). GetCornerCount s - ii)") auto

declare HitTest_point_loop.simps [simp del]

definition HitTest_point :: "host \<Rightarrow> LIB_POLYLINE \<Rightarrow> wxPoint \<Rightarrow> int32 \<Rightarrow> bool" where
  "HitTest_point h s aPosition aAccuracy =
     (let mindist = std_max (aAccuracy + c_div (GetPenSize h s) 2) (MINIMUM_SELECTION_DISTANCE h)
      in HitTest_point_loop h s aPosition mindist 1)"

function HitTest_rect_loop :: "host \<Rightarrow> 'r EDA_RECT_ops \<Rightarrow> wxPoint list \<Rightarrow> 'r \<Rightarrow> nat \<Rightarrow> bool" where
  "HitTest_rect_loop h R pts sel ii =
     (if ii < length pts then
        (let pt = TransformCoordinate h (pts ! ii);
             ptNext = TransformCoordinate h (pts ! ((ii + 1) mod length pts))
         in if Contains_point R sel pt then True
            else if Intersects_segment R sel pt ptNext then True
            else HitTest_rect_loop h R pts sel (ii + 1))
      else False)"
  by pat_completeness auto
termination
  by (relation "measure (\<lambda>(h, R, pts, sel, ii). length pts - ii)") auto

declare HitTest_rect_loop.simps [simp del]

definition HitTest_rect ::
  "host \<Rightarrow> 'r EDA_RECT_ops \<Rightarrow> LIB_POLYLINE \<Rightarrow> 'r \<Rightarrow> bool \<Rightarrow> int32 \<Rightarrow> error + bool" where
  "HitTest_rect h R s aRect aContained aAccuracy =
     (if m_Flags s AND (STRUCT_DELETED h OR SKIP_STRUCT h) \<noteq> 0 then Inr False
      else
        let sel = (if aAccuracy \<noteq> 0 then Inflate R aRect aAccuracy else aRect)
        in if aContained then
             (case GetBoundingBox h R s of
                Inl e \<Rightarrow> Inl e
              | Inr bbox \<Rightarrow> Inr (Contains_rect R sel bbox))
           else
             (case GetBoundingBox h R s of
                Inl e \<Rightarrow> Inl e
              | Inr bbox \<Rightarrow>
                  if \<not> Intersects_rect R sel bbox then Inr False
                  else Inr (HitTest_rect_loop h R (m_PolyPoints s)
                              (Inflate R sel (c_div (GetWidth s) 2)) 0)))"

subsection \<open>Retracting the last segment\<close>

function DeleteSegment :: "wxPoint list \<Rightarrow> wxPoint \<Rightarrow> wxPoint list" where
  "DeleteSegment pts aPosition =
     (if 2 < length pts then
        (let popped = butlast pts
         in if popped ! (length popped - 1) \<noteq> aPosition
            then popped[length popped - 1 := aPosition]
            else DeleteSegment popped aPosition)
      else pts)"
  by pat_completeness auto
termination
  by (relation "measure (\<lambda>(pts, aPosition). length pts)") auto

declare DeleteSegment.simps [simp del]

section \<open>The edit session\<close>

definition vector_at :: "wxPoint list \<Rightarrow> int32 \<Rightarrow> error + wxPoint" where
  \<comment> \<open>\<^verbatim>\<open>m_PolyPoints[i]\<close> for an \<^verbatim>\<open>int\<close> index: a negative one converts to a huge unsigned index.\<close>
  "vector_at pts i = (if 0 \<le>s i \<and> unat i < length pts then Inr (pts ! unat i) else Inl OutOfRange)"

definition squared_distance :: "wxPoint \<Rightarrow> wxPoint \<Rightarrow> int32" where
  "squared_distance aPosition point =
     pt_x (wx_minus aPosition point) * pt_x (wx_minus aPosition point)
     + pt_y (wx_minus aPosition point) * pt_y (wx_minus aPosition point)"

definition midpoint_distance :: "wxPoint \<Rightarrow> wxPoint \<Rightarrow> wxPoint \<Rightarrow> int32" where
  "midpoint_distance aPosition point prevPoint =
     (let offset = wx_minus (wx_minus (wx_plus aPosition aPosition) point) prevPoint
      in c_div (pt_x offset * pt_x offset + pt_y offset * pt_y offset) 4 + 1)"

record scan =
  initialPos :: wxPoint
  ModifyIndex :: int32
  distanceMin :: int32
  prevPoint :: wxPoint
  index :: int32

definition BeginEdit_step :: "wxPoint \<Rightarrow> wxPoint \<Rightarrow> scan \<Rightarrow> scan" where
  \<comment> \<open>One pass of the range-for loop over \<^verbatim>\<open>m_PolyPoints\<close>.\<close>
  "BeginEdit_step aPosition point st =
     (let st1 = (if squared_distance aPosition point <s distanceMin st
                 then st\<lparr>initialPos := point, ModifyIndex := index st,
                         distanceMin := squared_distance aPosition point\<rparr>
                 else st);
          st2 = (if midpoint_distance aPosition point (prevPoint st1) <s distanceMin st1
                 then st1\<lparr>initialPos := point, ModifyIndex := - index st1,
                          distanceMin := midpoint_distance aPosition point (prevPoint st1)\<rparr>
                 else st1)
      in st2\<lparr>prevPoint := point, index := index st2 + 1\<rparr>)"

definition BeginEdit_scan :: "wxPoint list \<Rightarrow> wxPoint \<Rightarrow> wxPoint \<Rightarrow> scan" where
  "BeginEdit_scan pts startPoint aPosition =
     fold (BeginEdit_step aPosition) pts
       \<lparr>initialPos = startPoint, ModifyIndex = 0,
        distanceMin = squared_distance aPosition startPoint,
        prevPoint = startPoint, index = 0\<rparr>"

definition BeginEdit :: "host \<Rightarrow> LIB_POLYLINE \<Rightarrow> STATUS_FLAGS \<Rightarrow> wxPoint \<Rightarrow> error + LIB_POLYLINE" where
  "BeginEdit h s aEditMode aPosition =
     (let s0 = s\<lparr>m_Flags := LIB_ITEM_BeginEdit h (m_Flags s) aEditMode aPosition\<rparr>
      in if aEditMode = IS_NEW h then
           Inr (s0\<lparr>m_PolyPoints := m_PolyPoints s0 @ [aPosition, aPosition]\<rparr>)
         else if aEditMode = IS_RESIZED h then
           (case m_PolyPoints s0 of
              [] \<Rightarrow> Inl OutOfRange
            | startPoint # _ \<Rightarrow>
                (let st = BeginEdit_scan (m_PolyPoints s0) startPoint aPosition
                 in Inr (s0\<lparr>m_ModifyIndex := ModifyIndex st, m_initialPos := initialPos st\<rparr>)))
         else if aEditMode = IS_MOVED h then
           (case m_PolyPoints s0 of
              [] \<Rightarrow> Inl OutOfRange
            | p0 # _ \<Rightarrow> Inr (s0\<lparr>m_initialCursorPos := aPosition, m_initialPos := p0\<rparr>))
         else Inr s0)"

definition ContinueEdit :: "host \<Rightarrow> LIB_POLYLINE \<Rightarrow> wxPoint \<Rightarrow> error + LIB_POLYLINE \<times> bool" where
  \<comment> \<open>With fewer than two vertices \<^verbatim>\<open>size() - 2\<close> wraps around.\<close>
  "ContinueEdit h s aPosition =
     (if IsNew h (m_Flags s) then
        (if length (m_PolyPoints s) < 2 then Inl OutOfRange
         else if m_PolyPoints s ! (length (m_PolyPoints s) - 2) \<noteq> last (m_PolyPoints s)
         then Inr (s\<lparr>m_PolyPoints := m_PolyPoints s @ [aPosition]\<rparr>, True)
         else Inr (s, True))
      else Inr (s, False))"

definition EndEdit_new :: "host \<Rightarrow> LIB_POLYLINE \<Rightarrow> LIB_POLYLINE" where
  \<comment> \<open>The first \<^verbatim>\<open>if\<close> of \<^verbatim>\<open>EndEdit\<close>: do not include the last point twice.\<close>
  "EndEdit_new h s =
     (if m_Flags s = IS_NEW h \<and> 2 < length (m_PolyPoints s) then
        (if m_PolyPoints s ! (length (m_PolyPoints s) - 2) = last (m_PolyPoints s)
         then s\<lparr>m_PolyPoints := butlast (m_PolyPoints s)\<rparr>
         else s)
      else s)"

definition same_as_previous :: "wxPoint list \<Rightarrow> int32 \<Rightarrow> error + bool" where
  \<comment> \<open>\<^verbatim>\<open>m_ModifyIndex > 0 && m_PolyPoints[m_ModifyIndex] == m_PolyPoints[m_ModifyIndex - 1]\<close>\<close>
  "same_as_previous pts i =
     (if 0 <s i then
        (case vector_at pts i of
           Inl e \<Rightarrow> Inl e
         | Inr a \<Rightarrow> (case vector_at pts (i - 1) of Inl e \<Rightarrow> Inl e | Inr b \<Rightarrow> Inr (a = b)))
      else Inr False)"

definition same_as_next :: "wxPoint list \<Rightarrow> int32 \<Rightarrow> error + bool" where
  \<comment> \<open>\<^verbatim>\<open>m_ModifyIndex < (int) size() - 1 && m_PolyPoints[m_ModifyIndex] == m_PolyPoints[m_ModifyIndex + 1]\<close>\<close>
  "same_as_next pts i =
     (if i <s of_nat (length pts) - 1 then
        (case vector_at pts i of
           Inl e \<Rightarrow> Inl e
         | Inr a \<Rightarrow> (case vector_at pts (i + 1) of Inl e \<Rightarrow> Inl e | Inr b \<Rightarrow> Inr (a = b)))
      else Inr False)"

definition vector_erase :: "wxPoint list \<Rightarrow> int32 \<Rightarrow> error + wxPoint list" where
  "vector_erase pts i =
     (if 0 \<le>s i \<and> unat i < length pts then Inr (take (unat i) pts @ drop (unat i + 1) pts)
      else Inl OutOfRange)"

definition EndEdit_resized :: "host \<Rightarrow> LIB_POLYLINE \<Rightarrow> error + LIB_POLYLINE" where
  \<comment> \<open>The second \<^verbatim>\<open>if\<close> of \<^verbatim>\<open>EndEdit\<close>; \<^verbatim>\<open>||\<close> evaluates its right side only when the left is false.\<close>
  "EndEdit_resized h s =
     (if m_Flags s = IS_RESIZED h \<and> 2 < length (m_PolyPoints s) then
        (case same_as_previous (m_PolyPoints s) (m_ModifyIndex s) of
           Inl e \<Rightarrow> Inl e
         | Inr l \<Rightarrow>
             (case (if l then Inr True else same_as_next (m_PolyPoints s) (m_ModifyIndex s)) of
                Inl e \<Rightarrow> Inl e
              | Inr c \<Rightarrow>
                  if c then
                    (case vector_erase (m_PolyPoints s) (m_ModifyIndex s) of
                       Inl e \<Rightarrow> Inl e
                     | Inr pts \<Rightarrow> Inr (s\<lparr>m_PolyPoints := pts\<rparr>))
                  else Inr s))
      else Inr s)"

definition EndEdit :: "host \<Rightarrow> LIB_POLYLINE \<Rightarrow> wxPoint \<Rightarrow> error + LIB_POLYLINE" where
  "EndEdit h s aPosition =
     EndEdit_resized h
       (EndEdit_new h (s\<lparr>m_Flags := LIB_ITEM_EndEdit h (m_Flags s) aPosition\<rparr>))"

definition vector_insert :: "wxPoint list \<Rightarrow> int32 \<Rightarrow> wxPoint \<Rightarrow> error + wxPoint list" where
  "vector_insert pts i p =
     (if 0 \<le>s i \<and> unat i \<le> length pts then Inr (take (unat i) pts @ p # drop (unat i) pts)
      else Inl OutOfRange)"

definition vector_set :: "wxPoint list \<Rightarrow> int32 \<Rightarrow> wxPoint \<Rightarrow> error + wxPoint list" where
  "vector_set pts i p =
     (if 0 \<le>s i \<and> unat i < length pts then Inr (pts[unat i := p]) else Inl OutOfRange)"

definition Offset :: "wxPoint list \<Rightarrow> wxPoint \<Rightarrow> wxPoint list" where
  "Offset pts aOffset = map (\<lambda>p. wx_plus p aOffset) pts"

definition MoveTo :: "wxPoint list \<Rightarrow> wxPoint \<Rightarrow> error + wxPoint list" where
  "MoveTo pts aPosition =
     (case pts of [] \<Rightarrow> Inl OutOfRange | p0 # _ \<Rightarrow> Inr (Offset pts (wx_minus aPosition p0)))"

definition CalcEdit :: "host \<Rightarrow> LIB_POLYLINE \<Rightarrow> wxPoint \<Rightarrow> error + LIB_POLYLINE" where
  "CalcEdit h s aPosition =
     (if IsNew h (m_Flags s) then
        (if m_PolyPoints s = [] then Inl OutOfRange
         else Inr (s\<lparr>m_PolyPoints := (m_PolyPoints s)[GetCornerCount s - 1 := aPosition]\<rparr>))
      else if IsResized h (m_Flags s) then
        (if m_ModifyIndex s <s 0 then
           (case vector_insert (m_PolyPoints s) (- m_ModifyIndex s) aPosition of
              Inl e \<Rightarrow> Inl e
            | Inr pts \<Rightarrow>
                (case vector_set pts (- m_ModifyIndex s) aPosition of
                   Inl e \<Rightarrow> Inl e
                 | Inr pts' \<Rightarrow> Inr (s\<lparr>m_ModifyIndex := - m_ModifyIndex s, m_PolyPoints := pts'\<rparr>)))
         else
           (case vector_set (m_PolyPoints s) (m_ModifyIndex s) aPosition of
              Inl e \<Rightarrow> Inl e
            | Inr pts' \<Rightarrow> Inr (s\<lparr>m_PolyPoints := pts'\<rparr>)))
      else if IsMoving h (m_Flags s) then
        (case MoveTo (m_PolyPoints s)
                (wx_minus (wx_plus (m_initialPos s) aPosition) (m_initialCursorPos s)) of
           Inl e \<Rightarrow> Inl e
         | Inr pts \<Rightarrow> Inr (s\<lparr>m_PolyPoints := pts\<rparr>))
      else Inr s)"

section \<open>A sample host\<close>

text \<open>
  The theorems below hold for every host and every rectangle implementation. To evaluate
  them at concrete inputs, this section fixes one of each: flag bits, a default line
  thickness of 6, a minimum selection distance of 2, the default transform that inverts
  the Y axis, a distance that is exact for horizontal and vertical lines, and rectangles
  given by two corners.
\<close>

definition c_abs :: "int32 \<Rightarrow> int32" where
  "c_abs a = (if a <s 0 then - a else a)"

definition sample_distance :: "wxPoint \<Rightarrow> wxPoint \<Rightarrow> wxPoint \<Rightarrow> int32" where
  "sample_distance a b p =
     (if pt_y a = pt_y b then c_abs (pt_y p - pt_y a)
      else if pt_x a = pt_x b then c_abs (pt_x p - pt_x a)
      else INT_MAX)"

definition sample_hit :: "wxPoint \<Rightarrow> wxPoint \<Rightarrow> wxPoint \<Rightarrow> int32 \<Rightarrow> bool" where
  "sample_hit p a b d =
     (std_min (pt_x a) (pt_x b) - d \<le>s pt_x p \<and> pt_x p \<le>s std_max (pt_x a) (pt_x b) + d \<and>
      std_min (pt_y a) (pt_y b) - d \<le>s pt_y p \<and> pt_y p \<le>s std_max (pt_y a) (pt_y b) + d)"

definition sample_host :: host where
  "sample_host =
     \<lparr>IS_NEW = 16, IS_RESIZED = 32, IS_MOVED = 8, STRUCT_DELETED = 8192, SKIP_STRUCT = 32768,
      IsNew = (\<lambda>f. f AND 16 \<noteq> 0), IsResized = (\<lambda>f. f AND 32 \<noteq> 0),
      IsMoving = (\<lambda>f. f AND 8 \<noteq> 0),
      LIB_ITEM_BeginEdit = (\<lambda>f m p. f), LIB_ITEM_EndEdit = (\<lambda>f p. f),
      GetDefaultLineThickness = 6, MINIMUM_SELECTION_DISTANCE = 2,
      DistanceLinePoint = sample_distance, TestSegmentHit = sample_hit,
      TransformCoordinate = (\<lambda>p. wxPoint (pt_x p) (- pt_y p))\<rparr>"

definition box_contains :: "wxPoint \<times> wxPoint \<Rightarrow> wxPoint \<Rightarrow> bool" where
  "box_contains r p =
     (pt_x (fst r) \<le>s pt_x p \<and> pt_x p \<le>s pt_x (snd r) \<and>
      pt_y (fst r) \<le>s pt_y p \<and> pt_y p \<le>s pt_y (snd r))"

definition sample_rect :: "(wxPoint \<times> wxPoint) EDA_RECT_ops" where
  "sample_rect =
     \<lparr>EDA_RECT_new = (wxPoint 0 0, wxPoint 0 0),
      SetOrigin = (\<lambda>r x y. (wxPoint x y, snd r)),
      SetEnd = (\<lambda>r x y. (fst r, wxPoint x y)),
      Inflate = (\<lambda>r d. (wxPoint (pt_x (fst r) - d) (pt_y (fst r) - d),
                            wxPoint (pt_x (snd r) + d) (pt_y (snd r) + d))),
      RevertYAxis = (\<lambda>r. (wxPoint (pt_x (fst r)) (- pt_y (snd r)),
                             wxPoint (pt_x (snd r)) (- pt_y (fst r)))),
      Contains_rect = (\<lambda>r q. box_contains r (fst q) \<and> box_contains r (snd q)),
      Contains_point = box_contains,
      Intersects_rect = (\<lambda>r q. pt_x (fst r) \<le>s pt_x (snd q) \<and> pt_x (fst q) \<le>s pt_x (snd r) \<and>
                                  pt_y (fst r) \<le>s pt_y (snd q) \<and> pt_y (fst q) \<le>s pt_y (snd r)),
      Intersects_segment = (\<lambda>r a b. box_contains r a \<or> box_contains r b)\<rparr>"

definition sample_shape :: "STATUS_FLAGS \<Rightarrow> wxPoint list \<Rightarrow> LIB_POLYLINE" where
  "sample_shape f pts =
     \<lparr>m_Flags = f, m_Width = 0, m_PolyPoints = pts, m_ModifyIndex = 0,
      m_initialPos = wxPoint 0 0, m_initialCursorPos = wxPoint 0 0\<rparr>"

section \<open>Properties\<close>

subsection \<open>Signed reading of 32-bit values\<close>

lemma sint_int32_range: "- 2147483648 \<le> sint (a::int32) \<and> sint a < 2147483648"
  using sint_ge [of a] sint_lt [of a] by simp

lemma sint_word_of_int_int32:
  "- 2147483648 \<le> k \<Longrightarrow> k < 2147483648 \<Longrightarrow> sint (word_of_int k :: int32) = k"
  by (simp add: sint_sbintrunc' signed_take_bit_int_eq_self)

lemma sint_minus_int32:
  "- 2147483648 \<le> sint a - sint b \<Longrightarrow> sint a - sint b < 2147483648 \<Longrightarrow>
   sint (a - b :: int32) = sint a - sint b"
proof -
  assume r: "- 2147483648 \<le> sint a - sint b" "sint a - sint b < 2147483648"
  have "a - b = word_of_int (sint a - sint b)" by simp
  then show ?thesis using sint_word_of_int_int32 [OF r] by simp
qed

lemma sint_plus_int32:
  "- 2147483648 \<le> sint a + sint b \<Longrightarrow> sint a + sint b < 2147483648 \<Longrightarrow>
   sint (a + b :: int32) = sint a + sint b"
proof -
  assume r: "- 2147483648 \<le> sint a + sint b" "sint a + sint b < 2147483648"
  have "a + b = word_of_int (sint a + sint b)" by simp
  then show ?thesis using sint_word_of_int_int32 [OF r] by simp
qed

lemma sint_times_int32:
  "- 2147483648 \<le> sint a * sint b \<Longrightarrow> sint a * sint b < 2147483648 \<Longrightarrow>
   sint (a * b :: int32) = sint a * sint b"
proof -
  assume r: "- 2147483648 \<le> sint a * sint b" "sint a * sint b < 2147483648"
  have "a * b = word_of_int (sint a * sint b)" by simp
  then show ?thesis using sint_word_of_int_int32 [OF r] by simp
qed

lemma unat_nonneg_int32: "0 \<le> sint (a::int32) \<Longrightarrow> int (unat a) = sint a"
proof -
  assume "0 \<le> sint a"
  moreover have "sint a < 2 ^ 32" using sint_int32_range [of a] by simp
  ultimately have "take_bit 32 (sint a) = sint a" by (simp add: take_bit_int_eq_self)
  then have "uint a = sint a" using uint_sint [of a] by simp
  then show ?thesis by simp
qed

lemma pred_in_range:
  fixes i :: int32
  assumes "0 <s i" "unat i < n"
  shows "0 \<le>s i - 1 \<and> unat (i - 1) < n"
proof -
  from assms(1) have p: "0 < sint i" by (simp add: word_sless_alt)
  have s: "sint (i - 1) = sint i - 1"
    using sint_minus_int32 [of i 1] p sint_int32_range [of i] by simp
  have "int (unat (i - 1)) = sint i - 1" using unat_nonneg_int32 [of "i - 1"] s p by simp
  moreover have "int (unat i) = sint i" using unat_nonneg_int32 [of i] p by simp
  ultimately have "unat (i - 1) < unat i" using p by linarith
  with assms(2) s p show ?thesis by (simp add: word_sle_eq)
qed

lemma succ_in_range:
  fixes i :: int32
  assumes "0 \<le>s i" "i <s of_nat n - 1" "unat i < n"
  shows "0 \<le>s i + 1 \<and> unat (i + 1) < n"
proof -
  from assms(1) have p: "0 \<le> sint i" by (simp add: word_sle_eq)
  from assms(2) have "sint i < sint (of_nat n - 1 :: int32)" by (simp add: word_sless_alt)
  then have lt: "sint i < 2147483647" using sint_int32_range [of "of_nat n - 1"] by linarith
  have s: "sint (i + 1) = sint i + 1"
    using sint_plus_int32 [of i 1] p lt by simp
  have u1: "int (unat (i + 1)) = sint i + 1" using unat_nonneg_int32 [of "i + 1"] s p by simp
  have u: "int (unat i) = sint i" using unat_nonneg_int32 [of i] p by simp
  have "n \<noteq> unat i + 1"
  proof
    assume "n = unat i + 1"
    then have "(of_nat n - 1 :: int32) = i" by simp
    with assms(2) show False by simp
  qed
  with assms(3) have "unat i + 1 < n" by linarith
  with u u1 have "unat (i + 1) < n" by linarith
  with s p show ?thesis by (simp add: word_sle_eq)
qed

subsection \<open>When the end of an edit completes\<close>

lemma same_as_previous_total:
  assumes "0 \<le>s i" "unat i < length pts"
  shows "\<exists>c. same_as_previous pts i = Inr c"
proof (cases "0 <s i")
  case True
  from pred_in_range [OF True assms(2)] assms show ?thesis
    by (simp add: same_as_previous_def vector_at_def True)
next
  case False
  then show ?thesis by (auto simp: same_as_previous_def)
qed

lemma same_as_next_total:
  assumes "0 \<le>s i" "unat i < length pts"
  shows "\<exists>c. same_as_next pts i = Inr c"
proof (cases "i <s of_nat (length pts) - 1")
  case True
  from succ_in_range [OF assms(1) True assms(2)] assms show ?thesis
    by (simp add: same_as_next_def vector_at_def True)
next
  case False
  then show ?thesis by (auto simp: same_as_next_def)
qed

lemma EndEdit_resized_total:
  assumes "0 \<le>s m_ModifyIndex s" "unat (m_ModifyIndex s) < length (m_PolyPoints s)"
  shows "\<exists>s'. EndEdit_resized h s = Inr s'"
proof -
  obtain l where l: "same_as_previous (m_PolyPoints s) (m_ModifyIndex s) = Inr l"
    using same_as_previous_total [OF assms] by blast
  obtain r where r: "same_as_next (m_PolyPoints s) (m_ModifyIndex s) = Inr r"
    using same_as_next_total [OF assms] by blast
  show ?thesis
    using assms l r by (simp add: EndEdit_resized_def vector_erase_def)
qed

lemma EndEdit_resized_untouched:
  "m_Flags s \<noteq> IS_RESIZED h \<or> length (m_PolyPoints s) \<le> 2 \<Longrightarrow> EndEdit_resized h s = Inr s"
  by (auto simp: EndEdit_resized_def)

subsection \<open>Mirroring twice\<close>

lemma mirror_x_twice: "mirror_x c (mirror_x c pt) = pt"
  by (cases pt) (simp add: mirror_x_def)

text \<open>
  C6. Mirroring a vertex list horizontally about a centre twice gives back exactly the
  original list, for all coordinates and all centres: the three in-place steps compute
  \<open>2 * c - x\<close> modulo \<open>2 ^ 32\<close>, which is its own inverse.
\<close>

theorem MirrorHorizontal_involution:
  "MirrorHorizontal aCenter (MirrorHorizontal aCenter pts) = pts"
  by (simp add: MirrorHorizontal_def comp_def mirror_x_twice)

subsection \<open>Ending an edit and retracting a segment\<close>

lemma EndEdit_new_length:
  "2 \<le> length (m_PolyPoints s) \<Longrightarrow>
   2 \<le> length (m_PolyPoints (EndEdit_new h s)) \<and>
   length (m_PolyPoints (EndEdit_new h s)) \<le> length (m_PolyPoints s)"
  by (auto simp: EndEdit_new_def)

lemma vector_erase_length:
  "vector_erase pts i = Inr pts' \<Longrightarrow> Suc (length pts') = length pts"
  by (auto simp: vector_erase_def split: if_splits)

lemma EndEdit_resized_length:
  assumes "EndEdit_resized h s = Inr s'" and "2 \<le> length (m_PolyPoints s)"
  shows "2 \<le> length (m_PolyPoints s') \<and> length (m_PolyPoints s') \<le> length (m_PolyPoints s)"
proof (cases "m_Flags s = IS_RESIZED h \<and> 2 < length (m_PolyPoints s)")
  case False
  with assms show ?thesis by (auto simp: EndEdit_resized_def)
next
  case True
  with assms(1) have "s' = s \<or>
      (\<exists>pts. vector_erase (m_PolyPoints s) (m_ModifyIndex s) = Inr pts \<and> s' = s\<lparr>m_PolyPoints := pts\<rparr>)"
    by (auto simp: EndEdit_resized_def split: sum.splits if_splits)
  then show ?thesis
  proof
    assume "s' = s"
    with assms(2) show ?thesis by simp
  next
    assume "\<exists>pts. vector_erase (m_PolyPoints s) (m_ModifyIndex s) = Inr pts \<and> s' = s\<lparr>m_PolyPoints := pts\<rparr>"
    then obtain pts where e: "vector_erase (m_PolyPoints s) (m_ModifyIndex s) = Inr pts"
      and s': "s' = s\<lparr>m_PolyPoints := pts\<rparr>"
      by blast
    from vector_erase_length [OF e] True s' show ?thesis by simp
  qed
qed

lemma EndEdit_length:
  assumes "EndEdit h s aPosition = Inr s'" and "2 \<le> length (m_PolyPoints s)"
  shows "2 \<le> length (m_PolyPoints s') \<and> length (m_PolyPoints s') \<le> length (m_PolyPoints s)"
proof -
  let ?s0 = "s\<lparr>m_Flags := LIB_ITEM_EndEdit h (m_Flags s) aPosition\<rparr>"
  have n: "2 \<le> length (m_PolyPoints (EndEdit_new h ?s0)) \<and>
      length (m_PolyPoints (EndEdit_new h ?s0)) \<le> length (m_PolyPoints s)"
    using EndEdit_new_length [of ?s0 h] assms(2) by simp
  from assms(1) have "EndEdit_resized h (EndEdit_new h ?s0) = Inr s'"
    by (simp add: EndEdit_def)
  from EndEdit_resized_length [OF this] n show ?thesis by linarith
qed

lemma EndEdit_total:
  assumes "IS_NEW h \<noteq> IS_RESIZED h"
    and "0 \<le>s m_ModifyIndex s" and "unat (m_ModifyIndex s) < length (m_PolyPoints s)"
  shows "\<exists>s'. EndEdit h s aPosition = Inr s'"
proof -
  let ?s0 = "s\<lparr>m_Flags := LIB_ITEM_EndEdit h (m_Flags s) aPosition\<rparr>"
  show ?thesis
  proof (cases "m_Flags ?s0 = IS_NEW h")
    case True
    with assms(1) have "m_Flags (EndEdit_new h ?s0) \<noteq> IS_RESIZED h"
      by (simp add: EndEdit_new_def)
    then show ?thesis
      by (simp add: EndEdit_def EndEdit_resized_untouched)
  next
    case False
    then have "EndEdit_new h ?s0 = ?s0" by (simp add: EndEdit_new_def)
    with EndEdit_resized_total [of ?s0 h] assms(2,3) show ?thesis
      by (simp add: EndEdit_def)
  qed
qed

lemma DeleteSegment_length:
  "2 \<le> length pts \<Longrightarrow> 2 \<le> length (DeleteSegment pts p)"
proof (induction pts p rule: DeleteSegment.induct)
  case (1 pts aPosition)
  show ?case
    using 1 by (subst DeleteSegment.simps) (auto simp: Let_def)
qed

text \<open>
  C2. On a shape with at least two vertices, \<^verbatim>\<open>EndEdit\<close> (whatever the flags are, so in
  every edit mode) and \<^verbatim>\<open>DeleteSegment\<close> leave at least two vertices. \<^verbatim>\<open>EndEdit\<close> never
  adds a vertex, so it removes one only when more than two were there; it completes
  whenever \<^verbatim>\<open>m_ModifyIndex\<close> is an index of the vector (otherwise the source reads
  outside the vector). \<^verbatim>\<open>DeleteSegment\<close> always completes.
\<close>

theorem edits_keep_two_vertices:
  assumes "2 \<le> length (m_PolyPoints s)"
  shows "(\<forall>s'. EndEdit h s aPosition = Inr s' \<longrightarrow>
            2 \<le> length (m_PolyPoints s') \<and> length (m_PolyPoints s') \<le> length (m_PolyPoints s)) \<and>
         (IS_NEW h \<noteq> IS_RESIZED h \<and> 0 \<le>s m_ModifyIndex s \<and>
            unat (m_ModifyIndex s) < length (m_PolyPoints s) \<longrightarrow>
            (\<exists>s'. EndEdit h s aPosition = Inr s')) \<and>
         2 \<le> length (DeleteSegment (m_PolyPoints s) aPosition)"
  using assms EndEdit_length [of h s aPosition] EndEdit_total [of h s aPosition]
    DeleteSegment_length [of "m_PolyPoints s" aPosition]
  by blast

theorem edits_keep_two_vertices_witness:
  "2 \<le> length (m_PolyPoints (sample_shape 32 [wxPoint 0 0, wxPoint 0 0, wxPoint 10 0])) \<and>
   (\<exists>s'. EndEdit sample_host (sample_shape 32 [wxPoint 0 0, wxPoint 0 0, wxPoint 10 0])
            (wxPoint 10 0) = Inr s' \<and>
          2 \<le> length (m_PolyPoints s')) \<and>
   2 \<le> length (DeleteSegment
                  (m_PolyPoints (sample_shape 32 [wxPoint 0 0, wxPoint 0 0, wxPoint 10 0]))
                  (wxPoint 10 0))"
proof -
  let ?s = "sample_shape 32 [wxPoint 0 0, wxPoint 0 0, wxPoint 10 0]"
  have two: "2 \<le> length (m_PolyPoints ?s)"
    by (simp add: sample_shape_def)
  have ok: "IS_NEW sample_host \<noteq> IS_RESIZED sample_host \<and> 0 \<le>s m_ModifyIndex ?s \<and>
      unat (m_ModifyIndex ?s) < length (m_PolyPoints ?s)"
    by (simp add: sample_shape_def sample_host_def)
  from edits_keep_two_vertices [OF two, of sample_host "wxPoint 10 0"] ok two
  show ?thesis by blast
qed

subsection \<open>Hit testing a point\<close>

lemma sample_pen: "GetPenSize sample_host (sample_shape f pts) = 6"
  by (simp add: GetPenSize_def sample_shape_def sample_host_def word_sless_alt)

lemma sample_tolerance:
  "std_max (0 + c_div (GetPenSize sample_host (sample_shape f pts)) 2)
     (MINIMUM_SELECTION_DISTANCE sample_host) = 3"
proof -
  have half: "c_div 6 2 = 3"
    by (simp add: c_div_def signed_divide_int_def)
  have msd: "MINIMUM_SELECTION_DISTANCE sample_host = 2"
    by (simp add: sample_host_def)
  have mx: "std_max (0 + 3) 2 = 3"
    by (simp add: std_max_def word_sless_alt)
  show ?thesis
    by (simp only: sample_pen half msd mx)
qed

lemma sample_transform: "TransformCoordinate sample_host (wxPoint a b) = wxPoint a (- b)"
  by (simp add: sample_host_def)

lemma sample_test: "TestSegmentHit sample_host = sample_hit"
  by (simp add: sample_host_def)

lemma near: "sample_hit (wxPoint 5 1) (wxPoint 0 0) (wxPoint 10 0) 3"
  by (simp add: sample_hit_def std_min_def std_max_def word_sless_alt word_sle_eq)

lemma far: "\<not> sample_hit (wxPoint 5 9) (wxPoint 0 0) (wxPoint 10 0) 3"
  by (simp add: sample_hit_def std_min_def std_max_def word_sless_alt word_sle_eq)

lemma HitTest_point_loop_iff:
  "1 \<le> ii \<Longrightarrow> HitTest_point_loop h s p d ii =
     (\<exists>i. ii \<le> i \<and> i < length (m_PolyPoints s) \<and>
        TestSegmentHit h p (TransformCoordinate h (m_PolyPoints s ! (i - 1)))
          (TransformCoordinate h (m_PolyPoints s ! i)) d)"
proof (induction h s p d ii rule: HitTest_point_loop.induct)
  case (1 h s aPosition mindist ii)
  let ?hit = "\<lambda>i. TestSegmentHit h aPosition (TransformCoordinate h (m_PolyPoints s ! (i - 1)))
          (TransformCoordinate h (m_PolyPoints s ! i)) mindist"
  show ?case
  proof (cases "ii < length (m_PolyPoints s)")
    case False
    then show ?thesis
      by (subst HitTest_point_loop.simps) (auto simp: GetCornerCount_def)
  next
    case True
    show ?thesis
    proof (cases "?hit ii")
      case hit: True
      with True show ?thesis
        by (subst HitTest_point_loop.simps) (auto simp: GetCornerCount_def Let_def)
    next
      case miss: False
      have "HitTest_point_loop h s aPosition mindist ii =
          HitTest_point_loop h s aPosition mindist (ii + 1)"
        using True miss by (subst HitTest_point_loop.simps) (simp add: GetCornerCount_def Let_def)
      also have "\<dots> = (\<exists>i. ii + 1 \<le> i \<and> i < length (m_PolyPoints s) \<and> ?hit i)"
        using 1 True miss by (simp add: GetCornerCount_def)
      also have "\<dots> = (\<exists>i. ii \<le> i \<and> i < length (m_PolyPoints s) \<and> ?hit i)"
        using miss by (metis Suc_eq_plus1 Suc_leI le_neq_implies_less le_add1 le_trans)
      finally show ?thesis .
    qed
  qed
qed

text \<open>
  C3. \<^verbatim>\<open>HitTest(wxPoint)\<close> is true exactly when \<^verbatim>\<open>TestSegmentHit\<close> accepts, with the
  tolerance \<open>max (aAccuracy + GetPenSize / 2) MINIMUM_SELECTION_DISTANCE\<close>, one of the
  segments \<open>(v[i-1], v[i])\<close> with \<open>1 \<le> i < n\<close> of the open chain (their endpoints
  taken through the default transform, as the source does). No segment from the last
  vertex back to the first is among them.
\<close>

theorem HitTest_point_open_chain:
  "HitTest_point h s aPosition aAccuracy =
     (\<exists>i. 1 \<le> i \<and> i < length (m_PolyPoints s) \<and>
        TestSegmentHit h aPosition
          (TransformCoordinate h (m_PolyPoints s ! (i - 1)))
          (TransformCoordinate h (m_PolyPoints s ! i))
          (std_max (aAccuracy + c_div (GetPenSize h s) 2) (MINIMUM_SELECTION_DISTANCE h)))"
  by (simp add: HitTest_point_def HitTest_point_loop_iff)

theorem HitTest_point_open_chain_witness:
  "HitTest_point sample_host (sample_shape 0 [wxPoint 0 0, wxPoint 10 0]) (wxPoint 5 1) 0 \<and>
   \<not> HitTest_point sample_host (sample_shape 0 [wxPoint 0 0, wxPoint 10 0]) (wxPoint 5 9) 0"
proof -
  let ?s = "sample_shape 0 [wxPoint 0 0, wxPoint 10 0]"
  have pts: "m_PolyPoints ?s = [wxPoint 0 0, wxPoint 10 0]"
    by (simp add: sample_shape_def)
  have "\<exists>i. 1 \<le> i \<and> i < length (m_PolyPoints ?s) \<and>
      sample_hit (wxPoint 5 1) (TransformCoordinate sample_host (m_PolyPoints ?s ! (i - 1)))
        (TransformCoordinate sample_host (m_PolyPoints ?s ! i)) 3"
    using near by (intro exI [of _ 1]) (simp add: pts sample_transform)
  then have a: "HitTest_point sample_host ?s (wxPoint 5 1) 0"
    unfolding HitTest_point_open_chain [of sample_host ?s "wxPoint 5 1" 0] sample_tolerance
      sample_test .
  have "\<not> (\<exists>i. 1 \<le> i \<and> i < length (m_PolyPoints ?s) \<and>
      sample_hit (wxPoint 5 9) (TransformCoordinate sample_host (m_PolyPoints ?s ! (i - 1)))
        (TransformCoordinate sample_host (m_PolyPoints ?s ! i)) 3)"
  proof
    assume "\<exists>i. 1 \<le> i \<and> i < length (m_PolyPoints ?s) \<and>
      sample_hit (wxPoint 5 9) (TransformCoordinate sample_host (m_PolyPoints ?s ! (i - 1)))
        (TransformCoordinate sample_host (m_PolyPoints ?s ! i)) 3"
    then obtain i where i: "1 \<le> i" "i < length (m_PolyPoints ?s)"
      and hit: "sample_hit (wxPoint 5 9) (TransformCoordinate sample_host (m_PolyPoints ?s ! (i - 1)))
        (TransformCoordinate sample_host (m_PolyPoints ?s ! i)) 3"
      by blast
    from i have "i = 1" by (simp add: pts)
    with hit far show False by (simp add: pts sample_transform)
  qed
  then have b: "\<not> HitTest_point sample_host ?s (wxPoint 5 9) 0"
    unfolding HitTest_point_open_chain [of sample_host ?s "wxPoint 5 9" 0] sample_tolerance
      sample_test .
  from a b show ?thesis by simp
qed

subsection \<open>The flag guard of the rectangle hit test\<close>

lemma flags_or:
  "(f AND (a OR b) \<noteq> 0) = (f AND a \<noteq> 0 \<or> f AND b \<noteq> 0)" for f a b :: STATUS_FLAGS
  by (simp add: bit.conj_disj_distrib or_eq_0_iff)

lemma GetPenSize_flags: "GetPenSize h (s\<lparr>m_Flags := f\<rparr>) = GetPenSize h s"
  by (simp add: GetPenSize_def)

lemma HitTest_point_loop_flags:
  "HitTest_point_loop h (s\<lparr>m_Flags := f\<rparr>) p d ii = HitTest_point_loop h s p d ii"
proof (induction h s p d ii rule: HitTest_point_loop.induct)
  case (1 h s aPosition mindist ii)
  show ?case
    using 1
    by (subst HitTest_point_loop.simps, subst (2) HitTest_point_loop.simps)
       (simp add: GetCornerCount_def Let_def)
qed

text \<open>
  C10. A shape that carries \<^verbatim>\<open>STRUCT_DELETED\<close> or \<^verbatim>\<open>SKIP_STRUCT\<close> is never hit by the
  rectangle test, whatever the rectangle, the accuracy, the \<^verbatim>\<open>aContained\<close> flag and the
  vertices are. The point test does not read the flags: changing them does not change
  its answer.
\<close>

theorem HitTest_flag_guard:
  "(m_Flags s AND STRUCT_DELETED h \<noteq> 0 \<or> m_Flags s AND SKIP_STRUCT h \<noteq> 0 \<longrightarrow>
      HitTest_rect h R s aRect aContained aAccuracy = Inr False) \<and>
   HitTest_point h (s\<lparr>m_Flags := f\<rparr>) aPosition aAccuracy = HitTest_point h s aPosition aAccuracy"
  by (simp add: HitTest_rect_def flags_or HitTest_point_def GetPenSize_flags
      HitTest_point_loop_flags)

theorem HitTest_flag_guard_witness:
  "m_Flags (sample_shape 8192 [wxPoint 0 0, wxPoint 10 0]) AND STRUCT_DELETED sample_host \<noteq> 0 \<and>
   HitTest_rect sample_host sample_rect (sample_shape 8192 [wxPoint 0 0, wxPoint 10 0])
     (wxPoint 0 0, wxPoint 5 5) False 0 = Inr False \<and>
   HitTest_rect sample_host sample_rect (sample_shape 8192 [wxPoint 0 0, wxPoint 10 0])
     (wxPoint 0 0, wxPoint 5 5) True 0 = Inr False \<and>
   HitTest_point sample_host ((sample_shape 0 [wxPoint 0 0, wxPoint 10 0])\<lparr>m_Flags := 8192\<rparr>)
     (wxPoint 5 1) 0 =
   HitTest_point sample_host (sample_shape 0 [wxPoint 0 0, wxPoint 10 0]) (wxPoint 5 1) 0"
proof -
  let ?s = "sample_shape 8192 [wxPoint 0 0, wxPoint 10 0]"
  let ?t = "sample_shape 0 [wxPoint 0 0, wxPoint 10 0]"
  have flagged: "m_Flags ?s AND STRUCT_DELETED sample_host \<noteq> 0"
    by (simp add: sample_shape_def sample_host_def)
  from flagged
    HitTest_flag_guard [of ?s sample_host sample_rect "(wxPoint 0 0, wxPoint 5 5)" False 0]
    HitTest_flag_guard [of ?s sample_host sample_rect "(wxPoint 0 0, wxPoint 5 5)" True 0]
    HitTest_flag_guard [of ?t sample_host sample_rect "(wxPoint 0 0, wxPoint 5 5)" True 0
      8192 "wxPoint 5 1"]
  show ?thesis by blast
qed

subsection \<open>Continuing a new shape\<close>

text \<open>
  C8. While the shape is new (\<^verbatim>\<open>IsNew()\<close>), \<^verbatim>\<open>ContinueEdit\<close> appends the point as a new
  last vertex exactly when the last two vertices differ, and leaves the shape as it is
  when they are equal. When the shape is not new, nothing changes and the result is
  \<open>False\<close>.
\<close>

theorem ContinueEdit_appends_unless_degenerate:
  "(IsNew h (m_Flags s) \<and> m_PolyPoints s = xs @ [a, b] \<longrightarrow>
      ContinueEdit h s aPosition =
        Inr (if a \<noteq> b then s\<lparr>m_PolyPoints := xs @ [a, b, aPosition]\<rparr> else s, True)) \<and>
   (\<not> IsNew h (m_Flags s) \<longrightarrow> ContinueEdit h s aPosition = Inr (s, False))"
  by (simp add: ContinueEdit_def nth_append)

theorem ContinueEdit_appends_unless_degenerate_witness:
  "ContinueEdit sample_host (sample_shape 16 [wxPoint 0 0, wxPoint 10 0]) (wxPoint 5 5) =
     Inr (sample_shape 16 [wxPoint 0 0, wxPoint 10 0, wxPoint 5 5], True) \<and>
   ContinueEdit sample_host (sample_shape 16 [wxPoint 0 0, wxPoint 0 0]) (wxPoint 5 5) =
     Inr (sample_shape 16 [wxPoint 0 0, wxPoint 0 0], True) \<and>
   ContinueEdit sample_host (sample_shape 32 [wxPoint 0 0, wxPoint 10 0]) (wxPoint 5 5) =
     Inr (sample_shape 32 [wxPoint 0 0, wxPoint 10 0], False)"
proof -
  have new: "IsNew sample_host (m_Flags (sample_shape 16 pts))" for pts
    by (simp add: sample_host_def sample_shape_def)
  have other: "\<not> IsNew sample_host (m_Flags (sample_shape 32 pts))" for pts
    by (simp add: sample_host_def sample_shape_def)
  have pts: "m_PolyPoints (sample_shape f [u, v]) = [] @ [u, v]" for f u v
    by (simp add: sample_shape_def)
  from new pts
    ContinueEdit_appends_unless_degenerate
      [of sample_host "sample_shape 16 [wxPoint 0 0, wxPoint 10 0]" "[]" "wxPoint 0 0" "wxPoint 10 0"
        "wxPoint 5 5"]
  have a: "ContinueEdit sample_host (sample_shape 16 [wxPoint 0 0, wxPoint 10 0]) (wxPoint 5 5) =
     Inr (sample_shape 16 [wxPoint 0 0, wxPoint 10 0, wxPoint 5 5], True)"
    by (simp add: sample_shape_def)
  from new pts
    ContinueEdit_appends_unless_degenerate
      [of sample_host "sample_shape 16 [wxPoint 0 0, wxPoint 0 0]" "[]" "wxPoint 0 0" "wxPoint 0 0"
        "wxPoint 5 5"]
  have b: "ContinueEdit sample_host (sample_shape 16 [wxPoint 0 0, wxPoint 0 0]) (wxPoint 5 5) =
     Inr (sample_shape 16 [wxPoint 0 0, wxPoint 0 0], True)"
    by simp
  from other
    ContinueEdit_appends_unless_degenerate
      [of sample_host "sample_shape 32 [wxPoint 0 0, wxPoint 10 0]" "[]" "wxPoint 0 0" "wxPoint 10 0"
        "wxPoint 5 5"]
  have c: "ContinueEdit sample_host (sample_shape 32 [wxPoint 0 0, wxPoint 10 0]) (wxPoint 5 5) =
     Inr (sample_shape 32 [wxPoint 0 0, wxPoint 10 0], False)"
    by simp
  from a b c show ?thesis by simp
qed

subsection \<open>Hit testing a rectangle\<close>

lemma ex_from_next:
  "\<not> P ii \<Longrightarrow> (\<exists>i. ii + 1 \<le> i \<and> i < n \<and> P i) = (\<exists>i. ii \<le> i \<and> i < n \<and> P i)"
  for ii n :: nat
  by (metis Suc_eq_plus1 Suc_leI le_neq_implies_less le_add1 le_trans)

lemma HitTest_rect_loop_iff:
  "HitTest_rect_loop h R pts sel ii =
     (\<exists>i. ii \<le> i \<and> i < length pts \<and>
        (Contains_point R sel (TransformCoordinate h (pts ! i)) \<or>
         Intersects_segment R sel (TransformCoordinate h (pts ! i))
           (TransformCoordinate h (pts ! ((i + 1) mod length pts)))))"
proof (induction h R pts sel ii rule: HitTest_rect_loop.induct)
  case (1 h R pts sel ii)
  let ?hit = "\<lambda>i. Contains_point R sel (TransformCoordinate h (pts ! i)) \<or>
         Intersects_segment R sel (TransformCoordinate h (pts ! i))
           (TransformCoordinate h (pts ! ((i + 1) mod length pts)))"
  show ?case
  proof (cases "ii < length pts")
    case False
    then show ?thesis
      by (subst HitTest_rect_loop.simps) auto
  next
    case True
    show ?thesis
    proof (cases "?hit ii")
      case hit: True
      have "HitTest_rect_loop h R pts sel ii"
        using True hit by (subst HitTest_rect_loop.simps) (auto simp: Let_def)
      moreover have "\<exists>i. ii \<le> i \<and> i < length pts \<and> ?hit i"
        using True hit by (intro exI [of _ ii]) simp
      ultimately show ?thesis by simp
    next
      case miss: False
      have "HitTest_rect_loop h R pts sel ii = HitTest_rect_loop h R pts sel (ii + 1)"
        using True miss by (subst HitTest_rect_loop.simps) (simp add: Let_def)
      also have "\<dots> = (\<exists>i. ii + 1 \<le> i \<and> i < length pts \<and> ?hit i)"
        using 1 True miss by simp
      also have "\<dots> = (\<exists>i. ii \<le> i \<and> i < length pts \<and> ?hit i)"
        using miss by (rule ex_from_next)
      finally show ?thesis .
    qed
  qed
qed

lemma closed_cycle_endpoints:
  "(\<exists>i<n. C i \<or> C ((i + 1) mod n) \<or> I i) = (\<exists>i. 0 \<le> i \<and> i < n \<and> (C i \<or> I i))" for n :: nat
proof
  assume "\<exists>i<n. C i \<or> C ((i + 1) mod n) \<or> I i"
  then obtain i where i: "i < n" and d: "C i \<or> C ((i + 1) mod n) \<or> I i" by blast
  from i have m: "(i + 1) mod n < n" by simp
  from d show "\<exists>i. 0 \<le> i \<and> i < n \<and> (C i \<or> I i)"
  proof (elim disjE)
    assume "C i" with i show ?thesis by blast
  next
    assume "C ((i + 1) mod n)" with m show ?thesis by blast
  next
    assume "I i" with i show ?thesis by blast
  qed
next
  assume "\<exists>i. 0 \<le> i \<and> i < n \<and> (C i \<or> I i)"
  then obtain i where "i < n" "C i \<or> I i" by blast
  then show "\<exists>i<n. C i \<or> C ((i + 1) mod n) \<or> I i" by blast
qed

lemma GetBoundingBox_nonempty:
  "m_PolyPoints s \<noteq> [] \<Longrightarrow> \<exists>bbox. GetBoundingBox h R s = Inr bbox"
proof -
  assume "m_PolyPoints s \<noteq> []"
  then obtain p0 ps where p: "m_PolyPoints s = p0 # ps" by (cases "m_PolyPoints s") auto
  obtain xmin xmax ymin ymax where q:
    "fold (bbox_step (p0 # ps)) [1..<length (p0 # ps)]
       (pt_x p0, pt_x p0, pt_y p0, pt_y p0) = (xmin, xmax, ymin, ymax)"
    using prod_cases4 by blast
  show ?thesis
    unfolding GetBoundingBox_def p list.case q prod.case by (rule exI) (rule refl)
qed

lemma HitTest_rect_unflagged:
  assumes "m_Flags s AND (STRUCT_DELETED h OR SKIP_STRUCT h) = 0"
    and "GetBoundingBox h R s = Inr bbox"
  shows "HitTest_rect h R s aRect False aAccuracy =
      Inr (Intersects_rect R (if aAccuracy \<noteq> 0 then Inflate R aRect aAccuracy else aRect) bbox \<and>
           HitTest_rect_loop h R (m_PolyPoints s)
             (Inflate R (if aAccuracy \<noteq> 0 then Inflate R aRect aAccuracy else aRect)
                (c_div (GetWidth s) 2)) 0)"
  using assms by (simp add: HitTest_rect_def Let_def)

lemma flags_none:
  "f AND a = 0 \<Longrightarrow> f AND b = 0 \<Longrightarrow> f AND (a OR b) = 0" for f a b :: STATUS_FLAGS
  by (simp add: bit.conj_disj_distrib)

lemma HitTest_rect_loop_from_0:
  "HitTest_rect_loop h R pts sel2 0 =
      (\<exists>i. 0 \<le> i \<and> i < length pts \<and>
         (Contains_point R sel2 (TransformCoordinate h (pts ! i)) \<or>
          Intersects_segment R sel2 (TransformCoordinate h (pts ! i))
            (TransformCoordinate h (pts ! ((i + 1) mod length pts)))))"
  by (rule HitTest_rect_loop_iff)

lemma closed_cycle_of_shape:
  "(\<exists>i<length pts.
          Contains_point R sel2 (TransformCoordinate h (pts ! i)) \<or>
          Contains_point R sel2 (TransformCoordinate h (pts ! ((i + 1) mod length pts))) \<or>
          Intersects_segment R sel2 (TransformCoordinate h (pts ! i))
            (TransformCoordinate h (pts ! ((i + 1) mod length pts)))) =
   HitTest_rect_loop h R pts sel2 0"
  unfolding HitTest_rect_loop_from_0
  using closed_cycle_endpoints [where n = "length pts"
      and C = "\<lambda>i. Contains_point R sel2 (TransformCoordinate h (pts ! i))"
      and I = "\<lambda>i. Intersects_segment R sel2 (TransformCoordinate h (pts ! i))
            (TransformCoordinate h (pts ! ((i + 1) mod length pts)))"] .

lemma sample_half_pen: "c_div (GetPenSize sample_host (sample_shape f pts) + 1) 2 = 3"
proof -
  have "c_div (6 + 1) 2 = 3" by (simp add: c_div_def signed_divide_int_def)
  then show ?thesis by (simp only: sample_pen)
qed

lemma sample_half_width: "c_div (GetWidth (sample_shape f pts)) 2 = 0"
proof -
  have "c_div 0 2 = 0" by (simp add: c_div_def)
  moreover have "GetWidth (sample_shape f pts) = 0" by (simp add: GetWidth_def sample_shape_def)
  ultimately show ?thesis by simp
qed

lemma sample_segment_fold:
  "fold (bbox_step [wxPoint 0 0, wxPoint 10 0]) [1..<length [wxPoint 0 0, wxPoint 10 0]] (0, 0, 0, 0) =
     (0, 10, 0, 0)"
proof -
  have "[1..<length [wxPoint 0 0, wxPoint 10 0]] = [1]" by simp
  moreover have "bbox_step [wxPoint 0 0, wxPoint 10 0] 1 (0, 0, 0, 0) = (0, 10, 0, 0)"
    by (simp add: bbox_step_def std_min_def std_max_def word_sless_alt)
  ultimately show ?thesis by simp
qed

lemma sample_segment_bbox:
  "GetBoundingBox sample_host sample_rect (sample_shape f [wxPoint 0 0, wxPoint 10 0]) =
     Inr (wxPoint (- 3) (- 3), wxPoint 13 3)"
proof -
  have pts: "m_PolyPoints (sample_shape f [wxPoint 0 0, wxPoint 10 0]) = [wxPoint 0 0, wxPoint 10 0]"
    by (simp add: sample_shape_def)
  have box: "RevertYAxis sample_rect
      (Inflate sample_rect (SetEnd sample_rect (SetOrigin sample_rect (EDA_RECT_new sample_rect) 0 0) 10 0) 3) =
      (wxPoint (- 3) (- 3), wxPoint 13 3)"
    by (simp add: sample_rect_def)
  show ?thesis
    unfolding GetBoundingBox_def pts list.case wxPoint.sel sample_segment_fold prod.case
      sample_half_pen box ..
qed

lemma sample_flagged: "m_Flags (sample_shape 8192 pts) AND (STRUCT_DELETED sample_host OR SKIP_STRUCT sample_host) \<noteq> 0"
  by (simp add: sample_shape_def sample_host_def)

lemma sample_unflagged:
  "m_Flags (sample_shape 0 pts) AND STRUCT_DELETED sample_host = 0"
  "m_Flags (sample_shape 0 pts) AND SKIP_STRUCT sample_host = 0"
  by (simp_all add: sample_shape_def sample_host_def)

lemma sample_rect_overlaps:
  "Intersects_rect sample_rect (wxPoint (- 1) (- 1), wxPoint 5 5) (wxPoint (- 3) (- 3), wxPoint 13 3)"
  by (simp add: sample_rect_def word_sle_eq)

lemma sample_vertex_inside:
  "Contains_point sample_rect (Inflate sample_rect (wxPoint (- 1) (- 1), wxPoint 5 5) 0)
     (TransformCoordinate sample_host (wxPoint 0 0))"
  by (simp add: sample_rect_def sample_transform box_contains_def word_sle_eq)

text \<open>
  C4, as the source has it. The rectangle test first returns \<open>False\<close> for a shape that
  carries \<^verbatim>\<open>STRUCT_DELETED\<close> or \<^verbatim>\<open>SKIP_STRUCT\<close>. For a shape that carries neither and
  has at least one vertex, with \<^verbatim>\<open>aContained\<close> false: the result is \<open>False\<close> when the
  rectangle (inflated by the accuracy, when that is not zero) does not intersect the
  bounding box; otherwise the rectangle is inflated by half of \<^verbatim>\<open>GetWidth()\<close> and the
  result is \<open>True\<close> exactly when, for some edge \<open>(v[i], v[(i + 1) mod n])\<close> of the
  closed cycle, an endpoint lies in the rectangle or the edge intersects it.
\<close>

theorem HitTest_rect_closed_cycle:
  assumes "m_Flags s AND STRUCT_DELETED h = 0" and "m_Flags s AND SKIP_STRUCT h = 0"
    and "m_PolyPoints s \<noteq> []"
  shows "\<exists>bbox. GetBoundingBox h R s = Inr bbox \<and>
      HitTest_rect h R s aRect False aAccuracy =
        Inr (Intersects_rect R (if aAccuracy \<noteq> 0 then Inflate R aRect aAccuracy else aRect) bbox \<and>
             (\<exists>i<length (m_PolyPoints s).
                Contains_point R
                  (Inflate R (if aAccuracy \<noteq> 0 then Inflate R aRect aAccuracy else aRect)
                     (c_div (GetWidth s) 2))
                  (TransformCoordinate h (m_PolyPoints s ! i)) \<or>
                Contains_point R
                  (Inflate R (if aAccuracy \<noteq> 0 then Inflate R aRect aAccuracy else aRect)
                     (c_div (GetWidth s) 2))
                  (TransformCoordinate h (m_PolyPoints s ! ((i + 1) mod length (m_PolyPoints s)))) \<or>
                Intersects_segment R
                  (Inflate R (if aAccuracy \<noteq> 0 then Inflate R aRect aAccuracy else aRect)
                     (c_div (GetWidth s) 2))
                  (TransformCoordinate h (m_PolyPoints s ! i))
                  (TransformCoordinate h (m_PolyPoints s ! ((i + 1) mod length (m_PolyPoints s))))))"
proof -
  from GetBoundingBox_nonempty [OF assms(3), of h R]
  obtain bbox where bb: "GetBoundingBox h R s = Inr bbox" ..
  have unflagged: "m_Flags s AND (STRUCT_DELETED h OR SKIP_STRUCT h) = 0"
    using assms(1,2) by (rule flags_none)
  show ?thesis
    unfolding closed_cycle_of_shape
    using bb HitTest_rect_unflagged [OF unflagged bb, of aRect aAccuracy]
    by (intro exI [of _ bbox] conjI)
qed

theorem HitTest_rect_flagged_counterexample:
  "GetBoundingBox sample_host sample_rect (sample_shape 8192 [wxPoint 0 0, wxPoint 10 0]) =
     Inr (wxPoint (- 3) (- 3), wxPoint 13 3) \<and>
   Intersects_rect sample_rect (wxPoint (- 1) (- 1), wxPoint 5 5) (wxPoint (- 3) (- 3), wxPoint 13 3) \<and>
   Contains_point sample_rect
     (Inflate sample_rect (wxPoint (- 1) (- 1), wxPoint 5 5)
        (c_div (GetWidth (sample_shape 8192 [wxPoint 0 0, wxPoint 10 0])) 2))
     (TransformCoordinate sample_host (m_PolyPoints (sample_shape 8192 [wxPoint 0 0, wxPoint 10 0]) ! 0)) \<and>
   HitTest_rect sample_host sample_rect (sample_shape 8192 [wxPoint 0 0, wxPoint 10 0])
     (wxPoint (- 1) (- 1), wxPoint 5 5) False 0 = Inr False"
proof -
  have v0: "m_PolyPoints (sample_shape 8192 [wxPoint 0 0, wxPoint 10 0]) ! 0 = wxPoint 0 0"
    by (simp add: sample_shape_def)
  have "HitTest_rect sample_host sample_rect (sample_shape 8192 [wxPoint 0 0, wxPoint 10 0])
     (wxPoint (- 1) (- 1), wxPoint 5 5) False 0 = Inr False"
    using sample_flagged [of "[wxPoint 0 0, wxPoint 10 0]"] by (simp add: HitTest_rect_def)
  then show ?thesis
    using sample_segment_bbox [of 8192] sample_rect_overlaps sample_vertex_inside
    by (simp only: v0 sample_half_width simp_thms)
qed

theorem HitTest_rect_closed_cycle_witness:
  "HitTest_rect sample_host sample_rect (sample_shape 0 [wxPoint 0 0, wxPoint 10 0])
     (wxPoint (- 1) (- 1), wxPoint 5 5) False 0 = Inr True"
proof -
  let ?s = "sample_shape 0 [wxPoint 0 0, wxPoint 10 0]"
  let ?r = "(wxPoint (- 1) (- 1), wxPoint 5 5)"
  have ne: "m_PolyPoints ?s \<noteq> []" by (simp add: sample_shape_def)
  have v0: "m_PolyPoints ?s ! 0 = wxPoint 0 0" by (simp add: sample_shape_def)
  have len: "0 < length (m_PolyPoints ?s)" by (simp add: sample_shape_def)
  from HitTest_rect_closed_cycle [OF sample_unflagged ne, of sample_rect ?r 0]
  obtain bbox where bb: "GetBoundingBox sample_host sample_rect ?s = Inr bbox"
    and eq: "HitTest_rect sample_host sample_rect ?s ?r False 0 =
        Inr (Intersects_rect sample_rect ?r bbox \<and>
             (\<exists>i<length (m_PolyPoints ?s).
                Contains_point sample_rect (Inflate sample_rect ?r (c_div (GetWidth ?s) 2))
                  (TransformCoordinate sample_host (m_PolyPoints ?s ! i)) \<or>
                Contains_point sample_rect (Inflate sample_rect ?r (c_div (GetWidth ?s) 2))
                  (TransformCoordinate sample_host (m_PolyPoints ?s ! ((i + 1) mod length (m_PolyPoints ?s)))) \<or>
                Intersects_segment sample_rect (Inflate sample_rect ?r (c_div (GetWidth ?s) 2))
                  (TransformCoordinate sample_host (m_PolyPoints ?s ! i))
                  (TransformCoordinate sample_host (m_PolyPoints ?s ! ((i + 1) mod length (m_PolyPoints ?s))))))"
    by auto
  from bb sample_segment_bbox [of 0] have "bbox = (wxPoint (- 3) (- 3), wxPoint 13 3)" by simp
  with sample_rect_overlaps have a: "Intersects_rect sample_rect ?r bbox" by simp
  have "Contains_point sample_rect (Inflate sample_rect ?r (c_div (GetWidth ?s) 2))
      (TransformCoordinate sample_host (m_PolyPoints ?s ! 0))"
    using sample_vertex_inside by (simp only: v0 sample_half_width)
  with len have b: "\<exists>i<length (m_PolyPoints ?s).
                Contains_point sample_rect (Inflate sample_rect ?r (c_div (GetWidth ?s) 2))
                  (TransformCoordinate sample_host (m_PolyPoints ?s ! i)) \<or>
                Contains_point sample_rect (Inflate sample_rect ?r (c_div (GetWidth ?s) 2))
                  (TransformCoordinate sample_host (m_PolyPoints ?s ! ((i + 1) mod length (m_PolyPoints ?s)))) \<or>
                Intersects_segment sample_rect (Inflate sample_rect ?r (c_div (GetWidth ?s) 2))
                  (TransformCoordinate sample_host (m_PolyPoints ?s ! i))
                  (TransformCoordinate sample_host (m_PolyPoints ?s ! ((i + 1) mod length (m_PolyPoints ?s))))"
    by (intro exI [of _ 0] conjI disjI1)
  from eq a b show ?thesis by (simp only: simp_thms)
qed

subsection \<open>Shapes with a single vertex\<close>

lemma AddCorner_single: "AddCorner h [v] aPosition = Inr [aPosition, v]"
  by (simp add: AddCorner_def INT_MAX_def)

lemma GetBoundingBox_single:
  "GetBoundingBox h R (s\<lparr>m_PolyPoints := [v]\<rparr>) =
     Inr (RevertYAxis R
           (Inflate R (SetEnd R (SetOrigin R (EDA_RECT_new R) (pt_x v) (pt_y v)) (pt_x v) (pt_y v))
              (c_div (GetPenSize h s + 1) 2)))"
  by (simp add: GetBoundingBox_def GetPenSize_def)

text \<open>
  C7, as the source has it. Neither \<^verbatim>\<open>AddCorner\<close> nor \<^verbatim>\<open>GetBoundingBox\<close> checks the
  number of vertices or signals an error. On a shape with the single vertex \<open>v\<close>,
  \<^verbatim>\<open>AddCorner\<close> skips its loop and inserts the point at index 0, giving \<open>[p, v]\<close>, and
  \<^verbatim>\<open>GetBoundingBox\<close> returns the box from \<open>v\<close> to \<open>v\<close>, inflated by
  \<open>(GetPenSize + 1) / 2\<close> and with its Y axis reverted.
\<close>

theorem degenerate_shape_unchecked:
  "AddCorner h [v] aPosition = Inr [aPosition, v] \<and>
   GetBoundingBox h R (s\<lparr>m_PolyPoints := [v]\<rparr>) =
     Inr (RevertYAxis R
           (Inflate R (SetEnd R (SetOrigin R (EDA_RECT_new R) (pt_x v) (pt_y v)) (pt_x v) (pt_y v))
              (c_div (GetPenSize h s + 1) 2)))"
  by (simp add: AddCorner_single GetBoundingBox_single)

theorem degenerate_shape_counterexample:
  "AddCorner sample_host [wxPoint 0 0] (wxPoint 5 5) = Inr [wxPoint 5 5, wxPoint 0 0] \<and>
   GetBoundingBox sample_host sample_rect (sample_shape 0 [wxPoint 0 0]) =
     Inr (wxPoint (- 3) (- 3), wxPoint 3 3)"
proof -
  have s: "sample_shape 0 [wxPoint 0 0] = (sample_shape 0 [])\<lparr>m_PolyPoints := [wxPoint 0 0]\<rparr>"
    by (simp add: sample_shape_def)
  have box: "RevertYAxis sample_rect
      (Inflate sample_rect (SetEnd sample_rect (SetOrigin sample_rect (EDA_RECT_new sample_rect) 0 0) 0 0) 3) =
      (wxPoint (- 3) (- 3), wxPoint 3 3)"
    by (simp add: sample_rect_def)
  have "GetBoundingBox sample_host sample_rect (sample_shape 0 [wxPoint 0 0]) =
     Inr (wxPoint (- 3) (- 3), wxPoint 3 3)"
    unfolding s GetBoundingBox_single wxPoint.sel sample_half_pen box ..
  then show ?thesis by (simp add: AddCorner_single)
qed

theorem degenerate_shape_unchecked_witness:
  "AddCorner sample_host [wxPoint 7 7] (wxPoint 1 2) = Inr [wxPoint 1 2, wxPoint 7 7]"
  using degenerate_shape_unchecked [of sample_host "wxPoint 7 7" "wxPoint 1 2" sample_rect
      "sample_shape 0 []"]
  by (rule conjunct1)

subsection \<open>Comparing two shapes\<close>

lemma compare_points_same: "compare_points a a = 0"
  by (induction a) simp_all

lemma compare_same: "compare a a = 0"
  by (simp add: compare_def compare_points_same)

lemma compare_points_swap: "compare_points b a = - compare_points a b"
  by (induction a b rule: compare_points.induct) auto

lemma compare_swap: "compare b a = - compare a b"
proof (cases "length a = length b")
  case True
  then show ?thesis by (simp add: compare_def compare_points_swap [of a b])
next
  case False
  then have "length b \<noteq> length a" by simp
  with False show ?thesis by (simp add: compare_def)
qed

lemma sint_uminus_int32:
  "x \<noteq> - 2147483648 \<Longrightarrow> sint (- x :: int32) = - sint x"
proof -
  assume ne: "x \<noteq> - 2147483648"
  have "sint x \<noteq> - 2147483648"
  proof
    assume "sint x = - 2147483648"
    then have "word_of_int (sint x) = (word_of_int (- 2147483648) :: int32)" by simp
    then have "x = - 2147483648" by simp
    with ne show False by simp
  qed
  then have r: "- 2147483648 \<le> - sint x" "- sint x < 2147483648"
    using sint_int32_range [of x] by linarith+
  have "- x = word_of_int (- sint x)" by simp
  then show ?thesis using sint_word_of_int_int32 [OF r] by simp
qed

lemma compare_antisymmetric_in_range:
  assumes "compare a b \<noteq> - 2147483648"
  shows "(compare a b <s 0) = (0 <s compare b a) \<and> (0 <s compare a b) = (compare b a <s 0)"
  using sint_uminus_int32 [OF assms]
  by (simp add: compare_swap [of b a] word_sless_alt)

lemma compare_overflow:
  "compare [wxPoint 2147483647 0] [wxPoint (- 1) 0] = - 2147483648"
  "compare [wxPoint (- 1) 0] [wxPoint 2147483647 0] = - 2147483648"
  by (simp_all add: compare_def)

text \<open>
  C5. \<open>compare a a = 0\<close> holds (\<open>compare_same\<close>), and swapping the arguments negates
  the result modulo \<open>2 ^ 32\<close> (\<open>compare_swap\<close>), so the two results have opposite
  signs whenever the result is not the least \<^verbatim>\<open>int\<close> (\<open>compare_antisymmetric_in_range\<close>).
  The subtraction overflows when the first differing coordinates are \<open>2 ^ 31\<close> apart:
  for the one-vertex shapes \<open>(2147483647, 0)\<close> and \<open>(-1, 0)\<close> both \<open>compare a b\<close> and
  \<open>compare b a\<close> are non-zero and negative.
\<close>

theorem compare_overflow_same_sign:
  "compare [wxPoint 2147483647 0] [wxPoint (- 1) 0] \<noteq> 0 \<and>
   compare [wxPoint 2147483647 0] [wxPoint (- 1) 0] <s 0 \<and>
   compare [wxPoint (- 1) 0] [wxPoint 2147483647 0] <s 0"
  by (simp add: compare_overflow word_sless_alt)

subsection \<open>Inserting a corner on the nearest segment\<close>

lemma int32_le_INT_MAX: "x \<le>s INT_MAX"
  using sint_int32_range [of x] by (simp add: word_sle_eq INT_MAX_def)

lemma AddCorner_step_eq:
  "AddCorner_step h pts p i st =
     (if DistanceLinePoint h (pts ! i) (pts ! (i + 1)) p <s fst st
      then (DistanceLinePoint h (pts ! i) (pts ! (i + 1)) p, i) else st)"
  by (simp add: AddCorner_step_def Let_def)

lemma AddCorner_scan:
  fixes h pts p
  defines "d \<equiv> \<lambda>i. DistanceLinePoint h (pts ! i) (pts ! (i + 1)) p"
  defines "st \<equiv> \<lambda>k. fold (AddCorner_step h pts p) [0..<k] (INT_MAX, 0)"
  shows "(\<forall>j < k. fst (st k) \<le>s d j) \<and> (\<forall>j < snd (st k). fst (st k) <s d j) \<and>
         (k = 0 \<and> st k = (INT_MAX, 0) \<or> snd (st k) < k \<and> d (snd (st k)) = fst (st k))"
proof (induction k)
  case 0
  show ?case by (simp add: st_def)
next
  case (Suc k)
  have step: "st (Suc k) = (if d k <s fst (st k) then (d k, k) else st k)"
    by (simp add: st_def d_def AddCorner_step_eq)
  show ?case
  proof (cases "d k <s fst (st k)")
    case True
    then have new: "st (Suc k) = (d k, k)" by (simp add: step)
    have "\<forall>j < Suc k. d k \<le>s d j"
    proof (intro allI impI)
      fix j assume "j < Suc k"
      then consider "j < k" | "j = k" by linarith
      then show "d k \<le>s d j"
      proof cases
        case 1
        with Suc have "fst (st k) \<le>s d j" by blast
        with True show ?thesis
          using signed.less_le_trans signed.less_imp_le by blast
      next
        case 2
        then show ?thesis by simp
      qed
    qed
    moreover have "\<forall>j < k. d k <s d j"
    proof (intro allI impI)
      fix j assume "j < k"
      with Suc have "fst (st k) \<le>s d j" by blast
      with True show "d k <s d j" by (rule signed.less_le_trans)
    qed
    ultimately show ?thesis by (simp add: new)
  next
    case False
    then have same: "st (Suc k) = st k" by (simp add: step)
    from False have le: "fst (st k) \<le>s d k" by (rule signed.leI)
    have a: "\<forall>j < Suc k. fst (st k) \<le>s d j"
      using Suc le by (auto simp: less_Suc_eq)
    have b: "\<forall>j < snd (st k). fst (st k) <s d j"
      using Suc by blast
    have c: "snd (st k) < Suc k \<and> d (snd (st k)) = fst (st k)"
    proof (cases "k = 0 \<and> st k = (INT_MAX, 0)")
      case True
      then have k0: "k = 0" by simp
      have st0: "st 0 = (INT_MAX, 0)" by (simp add: st_def)
      from le have "INT_MAX \<le>s d 0" unfolding k0 st0 by simp
      with int32_le_INT_MAX [of "d 0"] have "d 0 = INT_MAX"
        by (rule signed.order_antisym)
      then show ?thesis unfolding k0 st0 by simp
    next
      case False
      with Suc have "snd (st k) < k \<and> d (snd (st k)) = fst (st k)" by blast
      then show ?thesis by simp
    qed
    from a b c show ?thesis by (simp add: same)
  qed
qed

lemma AddCorner_first_minimum:
  assumes "2 \<le> length pts"
  shows "\<exists>w. w < length pts - 1 \<and>
     (\<forall>j < length pts - 1. DistanceLinePoint h (pts ! w) (pts ! (w + 1)) p \<le>s
                           DistanceLinePoint h (pts ! j) (pts ! (j + 1)) p) \<and>
     (\<forall>j < w. DistanceLinePoint h (pts ! w) (pts ! (w + 1)) p <s
              DistanceLinePoint h (pts ! j) (pts ! (j + 1)) p) \<and>
     AddCorner h pts p = Inr (take w pts @ p # drop w pts)"
proof -
  let ?st = "fold (AddCorner_step h pts p) [0..<length pts - 1] (INT_MAX, 0)"
  from assms have k: "length pts - 1 \<noteq> 0" and ne: "pts \<noteq> []" by auto
  from AddCorner_scan [of "length pts - 1" h pts p] k
  have "snd ?st < length pts - 1 \<and>
     (\<forall>j < length pts - 1. DistanceLinePoint h (pts ! snd ?st) (pts ! (snd ?st + 1)) p \<le>s
                           DistanceLinePoint h (pts ! j) (pts ! (j + 1)) p) \<and>
     (\<forall>j < snd ?st. DistanceLinePoint h (pts ! snd ?st) (pts ! (snd ?st + 1)) p <s
              DistanceLinePoint h (pts ! j) (pts ! (j + 1)) p)"
    by simp
  moreover have "AddCorner h pts p = Inr (take (snd ?st) pts @ p # drop (snd ?st) pts)"
    using ne by (simp add: AddCorner_def Let_def)
  ultimately show ?thesis by blast
qed

lemma AddCorner_two_vertices: "AddCorner h [a, b] p = Inr [p, a, b]"
proof -
  have "[0..<length [a, b] - 1] = [0]" by simp
  then have "snd (fold (AddCorner_step h [a, b] p) [0..<length [a, b] - 1] (INT_MAX, 0)) = 0"
    by (simp add: AddCorner_step_eq)
  then show ?thesis by (simp add: AddCorner_def Let_def)
qed

lemma sample_distances:
  "DistanceLinePoint sample_host (wxPoint 0 0) (wxPoint 10 0) (wxPoint 10 5) = 5"
  "DistanceLinePoint sample_host (wxPoint 10 0) (wxPoint 10 10) (wxPoint 10 5) = 0"
  by (simp_all add: sample_host_def sample_distance_def c_abs_def word_sless_alt)

lemma AddCorner_sample_corner:
  "AddCorner sample_host [wxPoint 0 0, wxPoint 10 0, wxPoint 10 10] (wxPoint 10 5) =
     Inr [wxPoint 0 0, wxPoint 10 5, wxPoint 10 0, wxPoint 10 10]"
proof -
  let ?pts = "[wxPoint 0 0, wxPoint 10 0, wxPoint 10 10]"
  have idx: "[0..<length ?pts - 1] = [0, Suc 0]" by (simp add: upt_rec)
  have s0: "AddCorner_step sample_host ?pts (wxPoint 10 5) 0 (INT_MAX, 0) = (5, 0)"
    by (simp add: AddCorner_step_eq sample_distances INT_MAX_def)
  have s1: "AddCorner_step sample_host ?pts (wxPoint 10 5) (Suc 0) (5, 0) = (0, Suc 0)"
    by (simp add: AddCorner_step_eq sample_distances word_sless_alt)
  have "snd (fold (AddCorner_step sample_host ?pts (wxPoint 10 5)) [0..<length ?pts - 1] (INT_MAX, 0)) = Suc 0"
    unfolding idx by (simp add: s0 s1)
  then show ?thesis by (simp add: AddCorner_def Let_def)
qed

text \<open>
  C1. The scan of \<^verbatim>\<open>AddCorner\<close> does select the first segment of least distance
  (\<open>AddCorner_first_minimum\<close>), but the point is inserted at the index of that segment's
  first vertex, not after it. With the two vertices \<open>(0, 0)\<close> and \<open>(10, 0)\<close> there is one
  segment, whatever the distance function is, and the point \<open>(5, 0)\<close> ends up in front
  of both vertices instead of between them. With the three vertices \<open>(0, 0)\<close>,
  \<open>(10, 0)\<close>, \<open>(10, 10)\<close> and the point \<open>(10, 5)\<close> on the second segment, the point is
  inserted between the vertices of the first segment.
\<close>

theorem AddCorner_inserts_before_segment_start:
  "AddCorner h [wxPoint 0 0, wxPoint 10 0] (wxPoint 5 0) =
     Inr [wxPoint 5 0, wxPoint 0 0, wxPoint 10 0] \<and>
   AddCorner sample_host [wxPoint 0 0, wxPoint 10 0, wxPoint 10 10] (wxPoint 10 5) =
     Inr [wxPoint 0 0, wxPoint 10 5, wxPoint 10 0, wxPoint 10 10]"
  by (simp add: AddCorner_two_vertices AddCorner_sample_corner)

subsection \<open>Choosing the vertex to drag\<close>

lemma midpoint_distance_same_point:
  "midpoint_distance p v v = c_div (4 * squared_distance p v) 4 + 1"
proof -
  have x: "(a + a - b - b) * (a + a - b - b) + (c + c - d - d) * (c + c - d - d) =
      4 * ((a - b) * (a - b) + (c - d) * (c - d))" for a b c d :: int32
    by (simp add: algebra_simps)
  show ?thesis
    by (cases p; cases v)
       (simp only: midpoint_distance_def squared_distance_def wx_minus_def wx_plus_def Let_def
          wxPoint.sel x)
qed

lemma c_div_4_times:
  assumes "0 \<le> sint s" and "sint s < 536870912"
  shows "c_div (4 * s) 4 = s"
proof -
  have "sint (4 * s) = sint (4 :: int32) * sint s"
    using assms by (intro sint_times_int32) simp_all
  then have m: "sint (4 * s) = 4 * sint s" by simp
  have "(4 * sint s) sdiv 4 = sint s"
    using assms(1) by (simp add: signed_divide_int_def sgn_if)
  then have "c_div (4 * s) 4 = word_of_int (sint s)"
    by (simp add: c_div_def m)
  then show ?thesis by simp
qed

lemma midpoint_at_vertex_0_in_range:
  assumes "0 \<le>s squared_distance p v" and "squared_distance p v <s 536870912"
  shows "midpoint_distance p v v = squared_distance p v + 1 \<and>
         \<not> midpoint_distance p v v <s squared_distance p v"
proof -
  let ?s = "squared_distance p v"
  from assms have r: "0 \<le> sint ?s" "sint ?s < 536870912"
    by (simp_all add: word_sle_eq word_sless_alt)
  have m: "midpoint_distance p v v = ?s + 1"
    by (simp add: midpoint_distance_same_point c_div_4_times [OF r])
  have "sint (?s + 1) = sint ?s + 1"
    using sint_plus_int32 [of ?s 1] r by simp
  then have "\<not> ?s + 1 <s ?s" by (simp add: word_sless_alt)
  with m show ?thesis by simp
qed

lemma CalcEdit_drags_vertex_0:
  assumes "\<not> IsNew h (m_Flags s)" and "IsResized h (m_Flags s)"
    and "m_ModifyIndex s = 0" and "m_PolyPoints s \<noteq> []"
  shows "CalcEdit h s p = Inr (s\<lparr>m_PolyPoints := (m_PolyPoints s)[0 := p]\<rparr>)"
  using assms by (simp add: CalcEdit_def vector_set_def)

lemma far_cursor_distances:
  "squared_distance (wxPoint 32768 0) (wxPoint 0 0) = 1073741824"
  "midpoint_distance (wxPoint 32768 0) (wxPoint 0 0) (wxPoint 0 0) = 1"
  "squared_distance (wxPoint 32768 0) (wxPoint 32768 5) = 25"
  "midpoint_distance (wxPoint 32768 0) (wxPoint 32768 5) (wxPoint 0 0) = 268435463"
  by (simp_all add: squared_distance_def midpoint_distance_def wx_minus_def wx_plus_def Let_def
      c_div_def signed_divide_int_def)

lemma far_cursor_step_0:
  "BeginEdit_step (wxPoint 32768 0) (wxPoint 0 0)
     \<lparr>initialPos = wxPoint 0 0, ModifyIndex = 0, distanceMin = 1073741824,
      prevPoint = wxPoint 0 0, index = 0\<rparr> =
   \<lparr>initialPos = wxPoint 0 0, ModifyIndex = 0, distanceMin = 1,
    prevPoint = wxPoint 0 0, index = 1\<rparr>"
  by (simp add: BeginEdit_step_def Let_def far_cursor_distances word_sless_alt)

lemma far_cursor_step_1:
  "BeginEdit_step (wxPoint 32768 0) (wxPoint 32768 5)
     \<lparr>initialPos = wxPoint 0 0, ModifyIndex = 0, distanceMin = 1,
      prevPoint = wxPoint 0 0, index = 1\<rparr> =
   \<lparr>initialPos = wxPoint 0 0, ModifyIndex = 0, distanceMin = 1,
    prevPoint = wxPoint 32768 5, index = 2\<rparr>"
  by (simp add: BeginEdit_step_def Let_def far_cursor_distances word_sless_alt)

lemma far_cursor_scan:
  "BeginEdit_scan [wxPoint 0 0, wxPoint 32768 5] (wxPoint 0 0) (wxPoint 32768 0) =
   \<lparr>initialPos = wxPoint 0 0, ModifyIndex = 0, distanceMin = 1,
    prevPoint = wxPoint 32768 5, index = 2\<rparr>"
  by (simp add: BeginEdit_scan_def far_cursor_distances far_cursor_step_0 far_cursor_step_1)

lemma far_cursor_BeginEdit:
  "BeginEdit sample_host ((sample_shape 0 [wxPoint 0 0, wxPoint 32768 5])\<lparr>m_ModifyIndex := 7\<rparr>)
     (IS_RESIZED sample_host) (wxPoint 32768 0) =
   Inr (sample_shape 0 [wxPoint 0 0, wxPoint 32768 5])"
proof -
  have modes: "IS_RESIZED sample_host \<noteq> IS_NEW sample_host"
    by (simp add: sample_host_def)
  have base: "LIB_ITEM_BeginEdit sample_host f m q = f" for f m q
    by (simp add: sample_host_def)
  show ?thesis
    by (simp add: BeginEdit_def Let_def modes base sample_shape_def far_cursor_scan)
qed

text \<open>
  C9. At scan index 0 the midpoint candidate has \<^verbatim>\<open>point\<close> and \<^verbatim>\<open>prevPoint\<close> both equal
  to vertex 0, and its biased distance is \<open>(4 * d) / 4 + 1\<close> for the squared distance
  \<open>d\<close> to vertex 0. While \<open>4 * d\<close> fits an \<^verbatim>\<open>int\<close> this is \<open>d + 1\<close> and the candidate
  loses (\<open>midpoint_at_vertex_0_in_range\<close>). For a cursor 32768 units from vertex 0 the
  product \<^verbatim>\<open>offset.x * offset.x\<close> is \<open>2 ^ 32\<close>, which wraps to 0: the biased distance
  is 1, the candidate wins against \<open>d = 2 ^ 30\<close>, \<^verbatim>\<open>m_ModifyIndex\<close> becomes \<open>- 0 = 0\<close> and
  the running minimum drops to 1, so that the vertex \<open>(32768, 5)\<close>, at squared distance
  25 from the cursor, is no longer selected.
\<close>

theorem BeginEdit_midpoint_wins_at_vertex_0:
  "squared_distance (wxPoint 32768 0) (wxPoint 0 0) = 1073741824 \<and>
   midpoint_distance (wxPoint 32768 0) (wxPoint 0 0) (wxPoint 0 0) = 1 \<and>
   midpoint_distance (wxPoint 32768 0) (wxPoint 0 0) (wxPoint 0 0) <s
     squared_distance (wxPoint 32768 0) (wxPoint 0 0) \<and>
   BeginEdit_step (wxPoint 32768 0) (wxPoint 0 0)
     \<lparr>initialPos = wxPoint 0 0, ModifyIndex = 0,
      distanceMin = squared_distance (wxPoint 32768 0) (wxPoint 0 0),
      prevPoint = wxPoint 0 0, index = 0\<rparr> =
     \<lparr>initialPos = wxPoint 0 0, ModifyIndex = 0, distanceMin = 1,
      prevPoint = wxPoint 0 0, index = 1\<rparr> \<and>
   squared_distance (wxPoint 32768 0) (wxPoint 32768 5) = 25 \<and>
   BeginEdit sample_host ((sample_shape 0 [wxPoint 0 0, wxPoint 32768 5])\<lparr>m_ModifyIndex := 7\<rparr>)
     (IS_RESIZED sample_host) (wxPoint 32768 0) =
     Inr (sample_shape 0 [wxPoint 0 0, wxPoint 32768 5])"
  by (simp add: far_cursor_distances far_cursor_step_0 far_cursor_BeginEdit word_sless_alt)

end
